theory Spec2Isabelle
  imports Main "HOL-Library.Sublist"
begin

section \<open>The resource verifier \<open>locate-resources.py\<close>\<close>

text \<open>
  A shallow embedding of \<open>src/locate-resources.py\<close>: rule evaluation, library and asset
  resolution, the cached manifest fetch, the planner, and the verified transfer with its
  retry loop.

  JSON documents are typed the way the code reads them: a key the code indexes with
  \<open>d['k']\<close> is a field, a key it tests with \<open>'k' in d\<close> or reads with \<open>d.get('k')\<close> is an
  optional field. Strings stay strings (platform names, actions, digests), Python sets of
  strings are \<open>string set\<close>, and a Python list that is appended to is a list extended at its
  end.
\<close>

subsection \<open>Strings and paths\<close>

text \<open>Python's truth test on an optional string: \<open>None\<close> and \<open>''\<close> are false.\<close>

definition truthy :: "string option \<Rightarrow> bool" where
  "truthy s = (case s of None \<Rightarrow> False | Some t \<Rightarrow> t \<noteq> [])"

text \<open>
  \<open>os.path.join(a, *p)\<close> in its POSIX form (\<open>posixpath.join\<close>): a component starting with
  the separator replaces what came before, otherwise it is appended, with a separator unless
  the path so far is empty or ends with one.
\<close>

definition join_step :: "string \<Rightarrow> string \<Rightarrow> string" where
  "join_step path b =
     (if prefix ''/'' b then b
      else if path = [] \<or> suffix ''/'' path then path @ b
      else path @ ''/'' @ b)"

definition path_join :: "string \<Rightarrow> string list \<Rightarrow> string" where
  "path_join a p = foldl join_step a p"



subsection \<open>Rule evaluation\<close>

definition ALL_OS :: "string list" where
  "ALL_OS = [''osx'', ''linux'', ''windows'']"

text \<open>
  A rule is \<open>{'action': ..., 'os': {'name': ..., 'version': ...}}\<close>; \<open>os\<close> and, inside it,
  \<open>version\<close> are optional.
\<close>

record os_pred =
  os_name :: string
  os_version :: "string option"

record rule =
  action :: string
  os :: "os_pred option"

text \<open>The set \<open>change\<close> computed for one rule in the body of the loop.\<close>

definition rule_change :: "rule \<Rightarrow> string set" where
  "rule_change r =
     (case os r of
        Some p \<Rightarrow>
          (if \<not> (action r = ''disallow'' \<and> os_version p \<noteq> None) then {os_name p} else {})
      | None \<Rightarrow> set ALL_OS)"

definition apply_rule :: "string set \<Rightarrow> rule \<Rightarrow> string set" where
  "apply_rule allowed_os r =
     (let change = rule_change r in
      if action r = ''allow'' then allowed_os \<union> change else allowed_os - change)"

definition parse_rules :: "rule list \<Rightarrow> string set" where
  "parse_rules rules = (if rules = [] then set ALL_OS else foldl apply_rule {} rules)"

text \<open>
  The reference evaluation, written from the specification's words: the full set for an
  empty list; otherwise a fold from the empty set, where a rule implies the full set without
  an os predicate and the named platform with one, a disallow rule with a version implies
  nothing, allow unions and disallow subtracts. The specification names no other action, and
  this definition leaves the set as it is for one.
\<close>

definition full_platform_set :: "string set" where
  "full_platform_set = {''osx'', ''linux'', ''windows''}"

definition is_allow :: "rule \<Rightarrow> bool" where
  "is_allow r = (action r = ''allow'')"

definition is_disallow :: "rule \<Rightarrow> bool" where
  "is_disallow r = (action r = ''disallow'')"

fun implied_set :: "rule \<Rightarrow> string set" where
  "implied_set r =
     (case os r of
        None \<Rightarrow> full_platform_set
      | Some p \<Rightarrow> (if is_disallow r \<and> os_version p \<noteq> None then {} else {os_name p}))"

primrec evaluate_from :: "string set \<Rightarrow> rule list \<Rightarrow> string set" where
  "evaluate_from S [] = S"
| "evaluate_from S (r # rs) =
     evaluate_from
       (if is_allow r then S \<union> implied_set r
        else if is_disallow r then S - implied_set r
        else S) rs"

definition evaluate :: "rule list \<Rightarrow> string set" where
  "evaluate rules = (case rules of [] \<Rightarrow> full_platform_set | _ \<Rightarrow> evaluate_from {} rules)"

subsection \<open>Libraries\<close>

text \<open>
  An artifact or classifier entry of a library's \<open>downloads\<close>; the code reads its \<open>url\<close>,
  \<open>path\<close> and \<open>sha1\<close> with \<open>get\<close>. The classifiers are a dictionary, here the list of its
  items in iteration order.
\<close>

record artifact =
  a_url :: "string option"
  a_path :: "string option"
  a_sha1 :: "string option"

record lib_downloads =
  d_artifact :: "artifact option"
  d_classifiers :: "(string \<times> artifact) list option"

record library =
  l_rules :: "rule list option"
  l_downloads :: "lib_downloads option"

definition classifier_step :: "string set \<Rightarrow> artifact list \<Rightarrow> string \<times> artifact \<Rightarrow> artifact list" where
  "classifier_step allowed_os libraries ci =
     (case ci of (classifier, info) \<Rightarrow>
        if prefix ''natives-'' classifier then
          (let os_name = drop 8 classifier in
           if os_name \<in> allowed_os then libraries @ [info] else libraries)
        else libraries)"

definition library_step :: "artifact list \<Rightarrow> library \<Rightarrow> artifact list" where
  "library_step libraries lib =
     (let allowed_os = parse_rules (case l_rules lib of None \<Rightarrow> [] | Some rs \<Rightarrow> rs) in
      case l_downloads lib of
        None \<Rightarrow> libraries
      | Some d \<Rightarrow>
          (let libraries1 = (case d_artifact d of Some a \<Rightarrow> libraries @ [a] | None \<Rightarrow> libraries) in
           case d_classifiers d of
             Some cls \<Rightarrow> foldl (classifier_step allowed_os) libraries1 cls
           | None \<Rightarrow> libraries1))"

definition get_libraries :: "library list \<Rightarrow> artifact list" where
  "get_libraries libs = foldl library_step [] libs"

subsection \<open>The environment: files, network, clock\<close>

text \<open>
  The code reads and writes files, issues HTTP GETs and sleeps. The world holds the files
  (path to content), the paths that cannot be written, the answer of the network to a GET
  (a failure with its cause, or a body) as a function of the time and the URL, and the log
  of GETs and sleeps, most recent first; the time is the length of the log. Directories are
  not modelled: \<open>os.makedirs(..., exist_ok=True)\<close> changes nothing here.
\<close>

datatype error =
    HTTPError string
  | InvalidURL
  | OSError string
  | JSONDecodeError
  | SHA1Mismatch string "string option" string
  | AttributeError

datatype event = Get string | Sleep int

record world =
  files :: "string \<rightharpoonup> string"
  readonly :: "string \<Rightarrow> bool"
  net :: "nat \<Rightarrow> string \<Rightarrow> string + string"
  log :: "event list"

text \<open>
  A GET: \<open>requests.get\<close> with \<open>raise_for_status\<close>, or \<open>session.get\<close> with
  \<open>raise_for_status\<close> and \<open>response.read()\<close>. A transport error and a non-2xx status are the
  failure answer of the network.
\<close>

definition http_get :: "world \<Rightarrow> string \<Rightarrow> (error + string) \<times> world" where
  "http_get w url =
     ((case net w (length (log w)) url of
         Inl cause \<Rightarrow> Inl (HTTPError cause)
       | Inr body \<Rightarrow> Inr body),
      w\<lparr>log := Get url # log w\<rparr>)"

definition sleep :: "world \<Rightarrow> int \<Rightarrow> world" where
  "sleep w seconds = w\<lparr>log := Sleep seconds # log w\<rparr>"

definition write_file :: "world \<Rightarrow> string \<Rightarrow> string \<Rightarrow> error + world" where
  "write_file w path content =
     (if readonly w path then Inl (OSError path)
      else Inr (w\<lparr>files := (files w)(path \<mapsto> content)\<rparr>))"

text \<open>
  \<open>compute_sha1\<close>: the digest of the file's content. SHA-1 itself is a parameter \<open>H\<close> of the
  model, from content to hex digest.
\<close>

definition compute_sha1 :: "(string \<Rightarrow> string) \<Rightarrow> world \<Rightarrow> string \<Rightarrow> error + string" where
  "compute_sha1 H w file_path =
     (case files w file_path of
        None \<Rightarrow> Inl (OSError file_path)
      | Some content \<Rightarrow> Inr (H content))"

subsection \<open>The cached fetch of a JSON document\<close>

text \<open>
  \<open>json.load\<close> and \<open>response.json()\<close> are one parameter \<open>parse\<close>, from the text to the
  document or a decoding error; the document is optional, \<open>None\<close> standing for JSON's
  \<open>null\<close>. The body of the \<open>try\<close> is \<open>fetch_attempt\<close>; the loop runs over \<open>range(3)\<close>, and
  its end, which no run reaches, would return Python's \<open>None\<close>.
\<close>

definition fetch_attempt ::
  "(string \<Rightarrow> error + 'd option) \<Rightarrow> world \<Rightarrow> string \<Rightarrow> string \<Rightarrow> (error + 'd option) \<times> world" where
  "fetch_attempt parse w url filename =
     (case http_get w url of
        (Inl e, w1) \<Rightarrow> (Inl e, w1)
      | (Inr text, w1) \<Rightarrow>
          (case write_file w1 filename text of
             Inl e \<Rightarrow> (Inl e, w1)
           | Inr w2 \<Rightarrow> (parse text, w2)))"

fun fetch_loop ::
  "(string \<Rightarrow> error + 'd option) \<Rightarrow> world \<Rightarrow> string \<Rightarrow> string \<Rightarrow> nat list
     \<Rightarrow> (error + 'd option) \<times> world" where
  "fetch_loop parse w url filename [] = (Inr None, w)"
| "fetch_loop parse w url filename (attempt # rest) =
     (case fetch_attempt parse w url filename of
        (Inr doc, w1) \<Rightarrow> (Inr doc, w1)
      | (Inl e, w1) \<Rightarrow>
          (if attempt < 2 then fetch_loop parse (sleep w1 (2 ^ attempt)) url filename rest
           else (Inl e, w1)))"

definition fetch_json ::
  "(string \<Rightarrow> error + 'd option) \<Rightarrow> world \<Rightarrow> string \<Rightarrow> string \<Rightarrow> (error + 'd option) \<times> world" where
  "fetch_json parse w url filename =
     (case files w filename of
        Some content \<Rightarrow> (parse content, w)
      | None \<Rightarrow> fetch_loop parse w url filename [0, 1, 2])"

subsection \<open>Assets\<close>

text \<open>
  An object of the asset index; only \<open>hash\<close> is read, \<open>size\<close> stands for the fields that
  are not. The index's \<open>objects\<close> is a dictionary, here the list of its items.
\<close>

record asset_object =
  o_hash :: string
  o_size :: int

record asset_index =
  objects :: "(string \<times> asset_object) list option"

record asset =
  t_url :: string
  t_path :: string
  t_sha1 :: string

definition ASSET_DOWNLOAD :: "string \<Rightarrow> string \<Rightarrow> string" where
  "ASSET_DOWNLOAD a b = ''https://resources.download.minecraft.net/'' @ a @ ''/'' @ b"

definition asset_of :: "string \<Rightarrow> asset_object \<Rightarrow> asset" where
  "asset_of cache_dir obj =
     (let hash = o_hash obj;
          url = ASSET_DOWNLOAD (take 2 hash) hash;
          local_path = path_join cache_dir [''assets'', ''objects'', take 2 hash, hash]
      in \<lparr>t_url = url, t_path = local_path, t_sha1 = hash\<rparr>)"

definition get_assets ::
  "(string \<Rightarrow> error + asset_index option) \<Rightarrow> world \<Rightarrow> string \<Rightarrow> string \<Rightarrow> string
     \<Rightarrow> (error + asset list) \<times> world" where
  "get_assets parse w asset_index_url asset_id cache_dir =
     (let index_file = path_join cache_dir [''assets'', asset_id @ ''.json''] in
      case fetch_json parse w asset_index_url index_file of
        (Inl e, w1) \<Rightarrow> (Inl e, w1)
      | (Inr None, w1) \<Rightarrow> (Inr [], w1)
      | (Inr (Some index), w1) \<Rightarrow>
          (Inr (map (\<lambda>(name, obj). asset_of cache_dir obj)
                  (case objects index of None \<Rightarrow> [] | Some items \<Rightarrow> items)), w1))"

subsection \<open>The verified transfer\<close>

text \<open>
  \<open>session.get(url)\<close>: the URL of a library task comes from \<open>lib.get('url')\<close> and may be
  \<open>None\<close>, which the client refuses before any request.
\<close>

definition session_get :: "world \<Rightarrow> string option \<Rightarrow> (error + string) \<times> world" where
  "session_get w url = (case url of None \<Rightarrow> (Inl InvalidURL, w) | Some u \<Rightarrow> http_get w u)"

text \<open>
  The second half of \<open>download_file_async\<close>: the GET, the write to \<open>path\<close>, and the check of
  the written file against the expected digest.
\<close>

definition transfer ::
  "(string \<Rightarrow> string) \<Rightarrow> world \<Rightarrow> string option \<Rightarrow> string \<Rightarrow> string option
     \<Rightarrow> (error + bool) \<times> world" where
  "transfer H w url path expected_sha =
     (case session_get w url of
        (Inl e, w1) \<Rightarrow> (Inl e, w1)
      | (Inr content, w1) \<Rightarrow>
          (case write_file w1 path content of
             Inl e \<Rightarrow> (Inl e, w1)
           | Inr w2 \<Rightarrow>
               (if truthy expected_sha then
                  (case compute_sha1 H w2 path of
                     Inl e \<Rightarrow> (Inl e, w2)
                   | Inr actual_sha \<Rightarrow>
                       (if Some actual_sha \<noteq> expected_sha
                        then (Inl (SHA1Mismatch path expected_sha actual_sha), w2)
                        else (Inr True, w2)))
                else (Inr True, w2))))"

definition download_file_async ::
  "(string \<Rightarrow> string) \<Rightarrow> world \<Rightarrow> string option \<Rightarrow> string \<Rightarrow> string option
     \<Rightarrow> (error + bool) \<times> world" where
  "download_file_async H w url path expected_sha =
     (if files w path \<noteq> None then
        (if truthy expected_sha then
           (case compute_sha1 H w path of
              Inl e \<Rightarrow> (Inl e, w)
            | Inr actual \<Rightarrow>
                (if Some actual = expected_sha then (Inr False, w)
                 else transfer H w url path expected_sha))
         else (Inr False, w))
      else transfer H w url path expected_sha)"

text \<open>The body of the \<open>try\<close> in \<open>download_file_async_with_retry\<close>.\<close>

definition attempt_once ::
  "(string \<Rightarrow> string) \<Rightarrow> world \<Rightarrow> string option \<Rightarrow> string \<Rightarrow> string option
     \<Rightarrow> (error + bool) \<times> world" where
  "attempt_once H w url path expected_sha =
     (case download_file_async H w url path expected_sha of
        (Inl e, w1) \<Rightarrow> (Inl e, w1)
      | (Inr downloaded, w1) \<Rightarrow>
          (if \<not> downloaded then (Inr False, w1)
           else if truthy expected_sha then
             (case compute_sha1 H w1 path of
                Inl e \<Rightarrow> (Inl e, w1)
              | Inr actual \<Rightarrow>
                  (if Some actual \<noteq> expected_sha
                   then (Inl (SHA1Mismatch path expected_sha actual), w1)
                   else (Inr True, w1)))
           else (Inr True, w1)))"

text \<open>
  The \<open>while attempt < retries\<close> loop. With \<open>retries \<le> 0\<close> the body never runs and the
  function returns Python's \<open>None\<close>, the result \<open>Inr None\<close> here.
\<close>

function retry_loop ::
  "(string \<Rightarrow> string) \<Rightarrow> int \<Rightarrow> int \<Rightarrow> nat \<Rightarrow> world \<Rightarrow> string option \<Rightarrow> string \<Rightarrow> string option
     \<Rightarrow> (error + bool option) \<times> world" where
  "retry_loop H retries backoff attempt w url path expected_sha =
     (if int attempt < retries then
        (case attempt_once H w url path expected_sha of
           (Inr downloaded, w1) \<Rightarrow> (Inr (Some downloaded), w1)
         | (Inl e, w1) \<Rightarrow>
             (if int (attempt + 1) < retries
              then retry_loop H retries backoff (attempt + 1)
                     (sleep w1 (backoff ^ (attempt + 1))) url path expected_sha
              else (Inl e, w1)))
      else (Inr None, w))"
  by pat_completeness auto
termination
  by (relation "measure (\<lambda>(H, retries, backoff, attempt, w, url, path, sha). nat (retries - int attempt))")
    auto

definition download_file_async_with_retry ::
  "(string \<Rightarrow> string) \<Rightarrow> world \<Rightarrow> string option \<Rightarrow> string \<Rightarrow> string option \<Rightarrow> int \<Rightarrow> int
     \<Rightarrow> (error + bool option) \<times> world" where
  "download_file_async_with_retry H w url path expected_sha retries backoff =
     retry_loop H retries backoff 0 w url path expected_sha"

subsection \<open>The planner\<close>

text \<open>
  A task is the tuple \<open>(url, path, sha)\<close>. The filter of \<open>verify_and_download\<close> builds
  \<open>missing_tasks\<close>, the one of \<open>headless\<close> builds \<open>to_download\<close> with a reason. Both call
  \<open>compute_sha1\<close> only on a file that exists, where it is \<open>H\<close> of the content.
\<close>

type_synonym task = "string option \<times> string \<times> string option"





subsection \<open>Resolution and the headless run\<close>








definition asset_task :: "asset \<Rightarrow> task" where
  "asset_task a = (Some (t_url a), t_path a, Some (t_sha1 a))"





subsection \<open>The test for a file already in place\<close>

text \<open>
  The condition under which \<open>download_file_async\<close> returns \<open>False\<close> at once: the file exists
  and, when a digest is expected, its digest is the expected one. The planner retains a task
  exactly when this fails.
\<close>

definition already_have :: "(string \<Rightarrow> string) \<Rightarrow> world \<Rightarrow> string \<Rightarrow> string option \<Rightarrow> bool" where
  "already_have H w path expected_sha =
     (case files w path of
        None \<Rightarrow> False
      | Some content \<Rightarrow> (if truthy expected_sha then Some (H content) = expected_sha else True))"

section \<open>Properties\<close>

declare retry_loop.simps [simp del]

subsection \<open>Rule evaluation\<close>

lemma apply_rule_spec:
  "action r = ''allow'' \<or> action r = ''disallow'' \<Longrightarrow>
   apply_rule S r =
     (if is_allow r then S \<union> implied_set r
      else if is_disallow r then S - implied_set r else S)"
  by (auto simp: apply_rule_def rule_change_def is_allow_def is_disallow_def ALL_OS_def
      full_platform_set_def Let_def split: option.splits)

lemma foldl_apply_rule_spec:
  "\<forall>r\<in>set rules. action r = ''allow'' \<or> action r = ''disallow'' \<Longrightarrow>
   foldl apply_rule S rules = evaluate_from S rules"
proof (induction rules arbitrary: S)
  case Nil
  then show ?case by simp
next
  case (Cons r rules)
  then show ?case by (simp add: apply_rule_spec)
qed

text \<open>
  Claim C3. On every rule list whose actions are \<open>allow\<close> or \<open>disallow\<close>, \<open>parse_rules\<close>
  computes the reference evaluation: the full platform set for the empty list, otherwise the
  left-to-right fold from the empty set with union for allow and difference for disallow,
  a disallow rule with a version implying the empty set.
\<close>

theorem parse_rules_refines_evaluate:
  assumes "\<forall>r\<in>set rules. action r = ''allow'' \<or> action r = ''disallow''"
  shows "parse_rules rules = evaluate rules"
  using foldl_apply_rule_spec [OF assms]
  by (cases rules) (simp_all add: parse_rules_def evaluate_def ALL_OS_def full_platform_set_def)

theorem parse_rules_refines_evaluate_witness:
  "parse_rules [\<lparr>action = ''allow'', os = None\<rparr>,
       \<lparr>action = ''disallow'', os = Some \<lparr>os_name = ''linux'', os_version = None\<rparr>\<rparr>]
     = {''osx'', ''windows''}
   \<and> evaluate [\<lparr>action = ''allow'', os = None\<rparr>,
       \<lparr>action = ''disallow'', os = Some \<lparr>os_name = ''linux'', os_version = None\<rparr>\<rparr>]
     = {''osx'', ''windows''}"
  using parse_rules_refines_evaluate
    [of "[\<lparr>action = ''allow'', os = None\<rparr>,
       \<lparr>action = ''disallow'', os = Some \<lparr>os_name = ''linux'', os_version = None\<rparr>\<rparr>]"]
  by (auto simp: evaluate_def full_platform_set_def is_allow_def is_disallow_def)

lemma apply_rule_subset:
  assumes "\<forall>p. os r = Some p \<longrightarrow> os_name p \<in> set ALL_OS" "S \<subseteq> set ALL_OS"
  shows "apply_rule S r \<subseteq> set ALL_OS"
  using assms by (auto simp: apply_rule_def rule_change_def Let_def split: option.splits if_splits)

lemma foldl_apply_rule_subset:
  "\<forall>r\<in>set rules. \<forall>p. os r = Some p \<longrightarrow> os_name p \<in> set ALL_OS \<Longrightarrow> S \<subseteq> set ALL_OS \<Longrightarrow>
   foldl apply_rule S rules \<subseteq> set ALL_OS"
proof (induction rules arbitrary: S)
  case Nil
  then show ?case by simp
next
  case (Cons r rules)
  have "apply_rule S r \<subseteq> set ALL_OS"
    using Cons.prems by (intro apply_rule_subset) auto
  then show ?case using Cons by simp
qed

text \<open>
  Claim C8, as stated: the set produced by rule evaluation is a subset of
  \<open>{osx, linux, windows}\<close> for every rule list. It fails: the name of an os predicate is added
  as it is, so an allow rule naming \<open>solaris\<close> yields \<open>{solaris}\<close>.
\<close>

theorem parse_rules_subset_counterexample:
  "\<not> parse_rules [\<lparr>action = ''allow'', os = Some \<lparr>os_name = ''solaris'', os_version = None\<rparr>\<rparr>]
     \<subseteq> {''osx'', ''linux'', ''windows''}"
  by (simp add: parse_rules_def apply_rule_def rule_change_def)

text \<open>
  Claim C8, amended: for every rule list whose os predicates name only \<open>osx\<close>, \<open>linux\<close> or
  \<open>windows\<close>, the set produced by rule evaluation is a subset of \<open>{osx, linux, windows}\<close>.
\<close>

theorem parse_rules_subset_known_names:
  assumes "\<forall>r\<in>set rules. \<forall>p. os r = Some p \<longrightarrow> os_name p \<in> {''osx'', ''linux'', ''windows''}"
  shows "parse_rules rules \<subseteq> {''osx'', ''linux'', ''windows''}"
proof -
  have a: "set ALL_OS = {''osx'', ''linux'', ''windows''}" by (simp add: ALL_OS_def)
  have "foldl apply_rule {} rules \<subseteq> set ALL_OS"
    using assms unfolding a [symmetric] by (intro foldl_apply_rule_subset) auto
  then show ?thesis unfolding a by (simp add: parse_rules_def a)
qed

theorem parse_rules_subset_known_names_witness:
  "parse_rules [\<lparr>action = ''allow'', os = Some \<lparr>os_name = ''linux'', os_version = None\<rparr>\<rparr>]
     \<subseteq> {''osx'', ''linux'', ''windows''}"
  using parse_rules_subset_known_names
    [of "[\<lparr>action = ''allow'', os = Some \<lparr>os_name = ''linux'', os_version = None\<rparr>\<rparr>]"]
  by simp

subsection \<open>Libraries\<close>

lemma classifier_step_eq:
  "classifier_step A acc (classifier, info) =
     acc @ (if prefix ''natives-'' classifier \<and> drop 8 classifier \<in> A then [info] else [])"
  by (simp add: classifier_step_def Let_def)

lemma foldl_classifier_step:
  "foldl (classifier_step A) acc cls =
     acc @ map snd (filter (\<lambda>(classifier, info).
                      prefix ''natives-'' classifier \<and> drop 8 classifier \<in> A) cls)"
proof (induction cls arbitrary: acc)
  case Nil
  then show ?case by simp
next
  case (Cons ci cls)
  obtain classifier info where ci: "ci = (classifier, info)" by (cases ci)
  show ?case unfolding ci
    by (simp add: Cons.IH classifier_step_eq)
qed

lemma library_step_append:
  "library_step acc lib = acc @ library_step [] lib"
  by (simp add: library_step_def Let_def foldl_classifier_step split: option.splits)

lemma get_libraries_append:
  "get_libraries (xs @ ys) = get_libraries xs @ get_libraries ys"
proof (induction ys rule: rev_induct)
  case Nil
  then show ?case by (simp add: get_libraries_def)
next
  case (snoc y ys)
  have "get_libraries (xs @ ys @ [y]) = library_step (get_libraries (xs @ ys)) y"
    by (simp add: get_libraries_def)
  also have "\<dots> = get_libraries (xs @ ys) @ library_step [] y"
    by (rule library_step_append)
  also have "\<dots> = get_libraries xs @ (get_libraries ys @ library_step [] y)"
    by (simp add: snoc.IH)
  also have "get_libraries ys @ library_step [] y = get_libraries (ys @ [y])"
    using library_step_append [of "get_libraries ys" y] by (simp add: get_libraries_def)
  finally show ?case by simp
qed

lemma get_libraries_single: "get_libraries [lib] = library_step [] lib"
  by (simp add: get_libraries_def)

lemma get_libraries_Cons: "get_libraries (lib # libs) = library_step [] lib @ get_libraries libs"
  using get_libraries_append [of "[lib]" libs] by (simp add: get_libraries_single)

text \<open>
  Claim C4. For a library entry with a downloads section, \<open>get_libraries\<close> emits the primary
  artifact when there is one, whatever the rules evaluate to, and after it exactly the
  classifiers, in their order, whose name starts with \<open>natives-\<close> and whose name without
  its first 8 characters is a member of the entry's evaluated platform set.
\<close>

theorem get_libraries_entry:
  assumes "l_downloads lib = Some d"
  shows "get_libraries [lib] =
     (case d_artifact d of None \<Rightarrow> [] | Some a \<Rightarrow> [a]) @
     map snd (filter (\<lambda>(classifier, info).
                 prefix ''natives-'' classifier \<and>
                 drop 8 classifier \<in> parse_rules (case l_rules lib of None \<Rightarrow> [] | Some rs \<Rightarrow> rs))
              (case d_classifiers d of None \<Rightarrow> [] | Some cls \<Rightarrow> cls))"
  using assms
  by (simp add: get_libraries_single library_step_def Let_def foldl_classifier_step
      split: option.splits)

theorem get_libraries_entry_witness:
  "get_libraries
     [\<lparr>l_rules = Some [\<lparr>action = ''allow'', os = Some \<lparr>os_name = ''linux'', os_version = None\<rparr>\<rparr>],
       l_downloads = Some
         \<lparr>d_artifact = Some \<lparr>a_url = Some ''u/lib.jar'', a_path = Some ''lib.jar'', a_sha1 = Some ''aa''\<rparr>,
          d_classifiers = Some
            [(''natives-linux'', \<lparr>a_url = Some ''u/lin.jar'', a_path = Some ''lin.jar'', a_sha1 = Some ''bb''\<rparr>),
             (''natives-windows'', \<lparr>a_url = Some ''u/win.jar'', a_path = Some ''win.jar'', a_sha1 = Some ''cc''\<rparr>)]\<rparr>\<rparr>]
   = [\<lparr>a_url = Some ''u/lib.jar'', a_path = Some ''lib.jar'', a_sha1 = Some ''aa''\<rparr>,
      \<lparr>a_url = Some ''u/lin.jar'', a_path = Some ''lin.jar'', a_sha1 = Some ''bb''\<rparr>]"
  using get_libraries_entry
    [of "\<lparr>l_rules = Some [\<lparr>action = ''allow'', os = Some \<lparr>os_name = ''linux'', os_version = None\<rparr>\<rparr>],
       l_downloads = Some
         \<lparr>d_artifact = Some \<lparr>a_url = Some ''u/lib.jar'', a_path = Some ''lib.jar'', a_sha1 = Some ''aa''\<rparr>,
          d_classifiers = Some
            [(''natives-linux'', \<lparr>a_url = Some ''u/lin.jar'', a_path = Some ''lin.jar'', a_sha1 = Some ''bb''\<rparr>),
             (''natives-windows'', \<lparr>a_url = Some ''u/win.jar'', a_path = Some ''win.jar'', a_sha1 = Some ''cc''\<rparr>)]\<rparr>\<rparr>"
        "\<lparr>d_artifact = Some \<lparr>a_url = Some ''u/lib.jar'', a_path = Some ''lib.jar'', a_sha1 = Some ''aa''\<rparr>,
          d_classifiers = Some
            [(''natives-linux'', \<lparr>a_url = Some ''u/lin.jar'', a_path = Some ''lin.jar'', a_sha1 = Some ''bb''\<rparr>),
             (''natives-windows'', \<lparr>a_url = Some ''u/win.jar'', a_path = Some ''win.jar'', a_sha1 = Some ''cc''\<rparr>)]\<rparr>"]
  by (simp add: parse_rules_def apply_rule_def rule_change_def)

text \<open>
  Claim C10. A classifier whose name does not start with \<open>natives-\<close> is never emitted:
  whatever the entry's rules, its other classifiers and the entries around it, the result of
  \<open>get_libraries\<close> is the one obtained with that classifier deleted from the entry.
\<close>

theorem classifier_without_prefix_ignored:
  assumes "\<not> prefix ''natives-'' classifier"
  shows "get_libraries (before @
           [lib\<lparr>l_downloads := Some (d\<lparr>d_classifiers := Some (cls1 @ [(classifier, info)] @ cls2)\<rparr>)\<rparr>]
           @ after)
       = get_libraries (before @
           [lib\<lparr>l_downloads := Some (d\<lparr>d_classifiers := Some (cls1 @ cls2)\<rparr>)\<rparr>]
           @ after)"
  using assms
  by (simp add: get_libraries_append get_libraries_Cons library_step_def Let_def
      foldl_classifier_step classifier_step_eq)

theorem classifier_without_prefix_ignored_witness:
  "get_libraries
     [\<lparr>l_rules = None,
       l_downloads = Some
         \<lparr>d_artifact = None,
          d_classifiers = Some
            [(''sources'', \<lparr>a_url = Some ''u/src.jar'', a_path = Some ''src.jar'', a_sha1 = Some ''dd''\<rparr>),
             (''natives-osx'', \<lparr>a_url = Some ''u/osx.jar'', a_path = Some ''osx.jar'', a_sha1 = Some ''ee''\<rparr>)]\<rparr>\<rparr>]
   = [\<lparr>a_url = Some ''u/osx.jar'', a_path = Some ''osx.jar'', a_sha1 = Some ''ee''\<rparr>]"
  using classifier_without_prefix_ignored
    [where classifier = "''sources''" and before = "[]"
       and lib = "\<lparr>l_rules = None, l_downloads = None\<rparr>"
       and d = "\<lparr>d_artifact = None, d_classifiers = None\<rparr>" and ?cls1.0 = "[]"
       and info = "\<lparr>a_url = Some ''u/src.jar'', a_path = Some ''src.jar'', a_sha1 = Some ''dd''\<rparr>"
       and ?cls2.0 = "[(''natives-osx'', \<lparr>a_url = Some ''u/osx.jar'', a_path = Some ''osx.jar'', a_sha1 = Some ''ee''\<rparr>)]"
       and after = "[]"]
  by (simp add: get_libraries_single library_step_def Let_def foldl_classifier_step
      classifier_step_eq parse_rules_def ALL_OS_def)

subsection \<open>The planner\<close>







subsection \<open>Assets\<close>

lemma prefix_single: "prefix [c] xs \<longleftrightarrow> xs \<noteq> [] \<and> hd xs = c"
  by (cases xs) auto

lemma suffix_single: "suffix [c] xs \<longleftrightarrow> xs \<noteq> [] \<and> last xs = c"
  by (cases xs rule: rev_cases) auto

lemma join_step_plain:
  assumes "b \<noteq> []" "hd b \<noteq> CHR ''/''" "path \<noteq> []" "last path \<noteq> CHR ''/''"
  shows "join_step path b = path @ ''/'' @ b"
  using assms by (simp add: join_step_def prefix_single suffix_single)

lemma join_step_first:
  assumes "b \<noteq> []" "hd b \<noteq> CHR ''/''"
  shows "join_step path b = (if path = [] \<or> suffix ''/'' path then path else path @ ''/'') @ b"
  using assms by (simp add: join_step_def prefix_single)

lemma asset_path_hex:
  assumes "h \<noteq> []" "CHR ''/'' \<notin> set h"
  shows "path_join cache_dir [''assets'', ''objects'', take 2 h, h] =
     (if cache_dir = [] \<or> suffix ''/'' cache_dir then cache_dir else cache_dir @ ''/'')
       @ ''assets/objects/'' @ take 2 h @ ''/'' @ h"
proof -
  let ?root = "(if cache_dir = [] \<or> suffix ''/'' cache_dir then cache_dir else cache_dir @ ''/'')"
  have ne: "take 2 h \<noteq> []" using assms by simp
  have "set (take 2 h) \<subseteq> set h" by (rule set_take_subset)
  then have no: "CHR ''/'' \<notin> set (take 2 h)" using assms by auto
  have t2: "take 2 h \<noteq> []" "hd (take 2 h) \<noteq> CHR ''/''" "last (take 2 h) \<noteq> CHR ''/''"
  proof -
    show "take 2 h \<noteq> []" by (rule ne)
    show "hd (take 2 h) \<noteq> CHR ''/''" using no hd_in_set [OF ne] by metis
    show "last (take 2 h) \<noteq> CHR ''/''" using no last_in_set [OF ne] by metis
  qed
  have hh: "hd h \<noteq> CHR ''/''" using assms by (auto dest: hd_in_set)
  have 1: "join_step cache_dir ''assets'' = ?root @ ''assets''"
    by (rule join_step_first) simp_all
  have 2: "join_step (?root @ ''assets'') ''objects'' = (?root @ ''assets'') @ ''/'' @ ''objects''"
    by (rule join_step_plain) simp_all
  have 3: "join_step (?root @ ''assets/objects'') (take 2 h) = (?root @ ''assets/objects'') @ ''/'' @ take 2 h"
    using t2 by (intro join_step_plain) simp_all
  have 4: "join_step (?root @ ''assets/objects/'' @ take 2 h) h = (?root @ ''assets/objects/'' @ take 2 h) @ ''/'' @ h"
    using t2 assms hh by (intro join_step_plain) simp_all
  show ?thesis
    unfolding path_join_def using 1 2 3 4 by simp
qed

text \<open>
  Claim C5. The task resolved for an asset object is a function of its hash: the URL is the
  asset base URL, the first two characters of the hash, a slash and the hash; the expected
  digest is the hash; and for a hash that is a non-empty string of hexadecimal digits the
  local path is \<open>assets/objects/<first two characters>/<hash>\<close> under the content root.
  Two objects with the same hash resolve to the same URL, path and digest.
\<close>

theorem asset_task_from_hash:
  "asset_task (asset_of cache_dir obj) =
     (Some (''https://resources.download.minecraft.net/'' @ take 2 (o_hash obj) @ ''/'' @ o_hash obj),
      path_join cache_dir [''assets'', ''objects'', take 2 (o_hash obj), o_hash obj],
      Some (o_hash obj))
   \<and> (o_hash obj \<noteq> [] \<and> set (o_hash obj) \<subseteq> set ''0123456789abcdef'' \<longrightarrow>
        t_path (asset_of cache_dir obj) =
          (if cache_dir = [] \<or> suffix ''/'' cache_dir then cache_dir else cache_dir @ ''/'')
            @ ''assets/objects/'' @ take 2 (o_hash obj) @ ''/'' @ o_hash obj)
   \<and> (o_hash obj = o_hash obj' \<longrightarrow> asset_of cache_dir obj = asset_of cache_dir obj')"
proof (intro conjI impI)
  show "asset_task (asset_of cache_dir obj) =
     (Some (''https://resources.download.minecraft.net/'' @ take 2 (o_hash obj) @ ''/'' @ o_hash obj),
      path_join cache_dir [''assets'', ''objects'', take 2 (o_hash obj), o_hash obj],
      Some (o_hash obj))"
    by (simp add: asset_task_def asset_of_def ASSET_DOWNLOAD_def Let_def)
next
  assume h: "o_hash obj \<noteq> [] \<and> set (o_hash obj) \<subseteq> set ''0123456789abcdef''"
  then have "CHR ''/'' \<notin> set (o_hash obj)" by auto
  with h show "t_path (asset_of cache_dir obj) =
          (if cache_dir = [] \<or> suffix ''/'' cache_dir then cache_dir else cache_dir @ ''/'')
            @ ''assets/objects/'' @ take 2 (o_hash obj) @ ''/'' @ o_hash obj"
    by (simp add: asset_of_def Let_def asset_path_hex)
next
  assume "o_hash obj = o_hash obj'"
  then show "asset_of cache_dir obj = asset_of cache_dir obj'"
    by (simp add: asset_of_def Let_def)
qed

theorem asset_task_from_hash_witness:
  "fst (get_assets (\<lambda>text. Inr (Some \<lparr>objects = Some [(''a.png'', \<lparr>o_hash = ''abcd1234'', o_size = 7\<rparr>)]\<rparr>))
         \<lparr>files = [''mc/assets/1.json'' \<mapsto> ''cached''], readonly = (\<lambda>p. False),
          net = (\<lambda>t u. Inl ''down''), log = []\<rparr>
         ''http://index'' ''1'' ''mc'')
   = Inr [\<lparr>t_url = ''https://resources.download.minecraft.net/ab/abcd1234'',
           t_path = ''mc/assets/objects/ab/abcd1234'', t_sha1 = ''abcd1234''\<rparr>]
   \<and> t_path (asset_of ''mc'' \<lparr>o_hash = ''abcd1234'', o_size = 7\<rparr>) = ''mc/assets/objects/ab/abcd1234''
   \<and> asset_of ''mc'' \<lparr>o_hash = ''abcd1234'', o_size = 7\<rparr>
       = asset_of ''mc'' \<lparr>o_hash = ''abcd1234'', o_size = 9\<rparr>"
  using asset_task_from_hash [of "''mc''" "\<lparr>o_hash = ''abcd1234'', o_size = 7\<rparr>"
      "\<lparr>o_hash = ''abcd1234'', o_size = 9\<rparr>"]
  by (simp add: get_assets_def fetch_json_def path_join_def join_step_def asset_of_def
      ASSET_DOWNLOAD_def Let_def suffix_single)

subsection \<open>The cached fetch\<close>

lemma log_http_get: "log (snd (http_get w url)) = Get url # log w"
  by (simp add: http_get_def)

lemma log_fetch_attempt:
  "fetch_attempt parse w url filename = (r, w1) \<Longrightarrow> log w1 = Get url # log w"
  by (auto simp: fetch_attempt_def http_get_def write_file_def
      split: sum.splits if_splits)

lemma fetch_loop_three:
  "fetch_loop parse w url filename [0, 1, 2] =
     (case fetch_attempt parse w url filename of
        (Inr doc, w0) \<Rightarrow> (Inr doc, w0)
      | (Inl e0, w0) \<Rightarrow>
          (case fetch_attempt parse (sleep w0 1) url filename of
             (Inr doc, w1) \<Rightarrow> (Inr doc, w1)
           | (Inl e1, w1) \<Rightarrow> fetch_attempt parse (sleep w1 2) url filename))"
  by (auto split: prod.splits sum.splits)

text \<open>
  Claim C6. When a file exists at the cache location, \<open>fetch_json\<close> returns what decoding
  its content gives and leaves the world as it is: no GET, whatever the content. Otherwise
  it issues one, two or three GETs, sleeping 1 second after the first failed attempt and 2
  after the second, and when all three attempts fail the result is the error of the third.
\<close>

theorem fetch_json_cache_or_three_attempts:
  "(files w filename = Some content \<longrightarrow> fetch_json parse w url filename = (parse content, w))
   \<and> (files w filename = None \<longrightarrow>
        (log (snd (fetch_json parse w url filename)) = Get url # log w
         \<or> log (snd (fetch_json parse w url filename)) = Get url # Sleep 1 # Get url # log w
         \<or> log (snd (fetch_json parse w url filename))
             = Get url # Sleep 2 # Get url # Sleep 1 # Get url # log w)
        \<and> (\<forall>e0 w0 e1 w1 e2 w2.
              fetch_attempt parse w url filename = (Inl e0, w0) \<and>
              fetch_attempt parse (sleep w0 1) url filename = (Inl e1, w1) \<and>
              fetch_attempt parse (sleep w1 2) url filename = (Inl e2, w2)
              \<longrightarrow> fetch_json parse w url filename = (Inl e2, w2)))"
proof (intro conjI impI allI)
  assume "files w filename = Some content"
  then show "fetch_json parse w url filename = (parse content, w)"
    by (simp add: fetch_json_def)
next
  assume none: "files w filename = None"
  obtain r0 w0 where a0: "fetch_attempt parse w url filename = (r0, w0)" by force
  obtain r1 w1 where a1: "fetch_attempt parse (sleep w0 1) url filename = (r1, w1)" by force
  obtain r2 w2 where a2: "fetch_attempt parse (sleep w1 2) url filename = (r2, w2)" by force
  have l0: "log w0 = Get url # log w" using log_fetch_attempt [OF a0] .
  have l1: "log w1 = Get url # Sleep 1 # Get url # log w"
    using log_fetch_attempt [OF a1] l0 by (simp add: sleep_def)
  have l2: "log w2 = Get url # Sleep 2 # Get url # Sleep 1 # Get url # log w"
    using log_fetch_attempt [OF a2] l1 by (simp add: sleep_def)
  show "log (snd (fetch_json parse w url filename)) = Get url # log w
         \<or> log (snd (fetch_json parse w url filename)) = Get url # Sleep 1 # Get url # log w
         \<or> log (snd (fetch_json parse w url filename))
             = Get url # Sleep 2 # Get url # Sleep 1 # Get url # log w"
    using none a0 a1 a2 l0 l1 l2
    by (cases r0; cases r1; cases r2) (simp_all add: fetch_json_def fetch_loop_three)
next
  fix e0 w0 e1 w1 e2 w2
  assume none: "files w filename = None"
  assume "fetch_attempt parse w url filename = (Inl e0, w0) \<and>
              fetch_attempt parse (sleep w0 1) url filename = (Inl e1, w1) \<and>
              fetch_attempt parse (sleep w1 2) url filename = (Inl e2, w2)"
  then show "fetch_json parse w url filename = (Inl e2, w2)"
    using none by (simp add: fetch_json_def fetch_loop_three)
qed

theorem fetch_json_cache_or_three_attempts_witness:
  "fst (fetch_json (\<lambda>text. Inr (Some text))
         \<lparr>files = [''mc/assets/1.json'' \<mapsto> ''cached''], readonly = (\<lambda>p. False),
          net = (\<lambda>t u. Inl (if t = 0 then ''first'' else if t = 2 then ''second'' else ''third'')),
          log = []\<rparr>
         ''http://index'' ''mc/assets/1.json'') = Inr (Some ''cached'')
   \<and> log (snd (fetch_json (\<lambda>text. Inr (Some text))
         \<lparr>files = [''mc/assets/1.json'' \<mapsto> ''cached''], readonly = (\<lambda>p. False),
          net = (\<lambda>t u. Inl (if t = 0 then ''first'' else if t = 2 then ''second'' else ''third'')),
          log = []\<rparr>
         ''http://index'' ''mc/assets/1.json'')) = []
   \<and> fetch_json (\<lambda>text. Inr (Some text))
         \<lparr>files = [''mc/assets/1.json'' \<mapsto> ''cached''], readonly = (\<lambda>p. False),
          net = (\<lambda>t u. Inl (if t = 0 then ''first'' else if t = 2 then ''second'' else ''third'')),
          log = []\<rparr>
         ''http://index'' ''mc/assets/2.json''
       = (Inl (HTTPError ''third''),
          \<lparr>files = [''mc/assets/1.json'' \<mapsto> ''cached''], readonly = (\<lambda>p. False),
           net = (\<lambda>t u. Inl (if t = 0 then ''first'' else if t = 2 then ''second'' else ''third'')),
           log = [Get ''http://index'', Sleep 2, Get ''http://index'', Sleep 1, Get ''http://index'']\<rparr>)"
  using fetch_json_cache_or_three_attempts
      [of "\<lparr>files = [''mc/assets/1.json'' \<mapsto> ''cached''], readonly = (\<lambda>p. False),
          net = (\<lambda>t u. Inl (if t = 0 then ''first'' else if t = 2 then ''second'' else ''third'')),
          log = []\<rparr>" "''mc/assets/1.json''" "''cached''" "\<lambda>text. Inr (Some text)" "''http://index''"]
    fetch_json_cache_or_three_attempts
      [of "\<lparr>files = [''mc/assets/1.json'' \<mapsto> ''cached''], readonly = (\<lambda>p. False),
          net = (\<lambda>t u. Inl (if t = 0 then ''first'' else if t = 2 then ''second'' else ''third'')),
          log = []\<rparr>" "''mc/assets/2.json''" "''cached''" "\<lambda>text. Inr (Some text)" "''http://index''"]
  by (simp add: fetch_attempt_def http_get_def sleep_def)

subsection \<open>A transfer whose content never matches\<close>

lemma transfer_mismatch:
  assumes "truthy sha" "\<not> readonly w path" "net w (length (log w)) u = Inr c" "Some (H c) \<noteq> sha"
  shows "transfer H w (Some u) path sha =
     (Inl (SHA1Mismatch path sha (H c)), w\<lparr>log := Get u # log w, files := (files w)(path \<mapsto> c)\<rparr>)"
  using assms
  by (simp add: transfer_def session_get_def http_get_def write_file_def compute_sha1_def)

lemma attempt_once_mismatch:
  assumes "truthy sha" "\<not> readonly w path" "net w (length (log w)) u = Inr c" "Some (H c) \<noteq> sha"
    and "files w path = None \<or> (\<exists>old. files w path = Some old \<and> Some (H old) \<noteq> sha)"
  shows "attempt_once H w (Some u) path sha =
     (Inl (SHA1Mismatch path sha (H c)), w\<lparr>log := Get u # log w, files := (files w)(path \<mapsto> c)\<rparr>)"
  using assms transfer_mismatch [of sha w path u c H]
  by (auto simp: attempt_once_def download_file_async_def compute_sha1_def)

text \<open>
  Claim C2, as stated: when all three attempts write a content whose digest is not the
  expected one, the outcome is a digest mismatch and no corrupt file remains at the target
  path. The second half fails: nothing in the code removes the file, and the content of the
  last attempt stays at the path.
\<close>

theorem corrupt_file_left_counterexample:
  "files (snd (download_file_async_with_retry (\<lambda>c. ''sha-'' @ c)
     \<lparr>files = Map.empty, readonly = (\<lambda>p. False),
      net = (\<lambda>t u. Inr (if t = 0 then ''bad1'' else if t = 2 then ''bad2'' else ''bad3'')),
      log = []\<rparr>
     (Some ''http://lib'') ''mc/libraries/a.jar'' (Some ''sha-good'') 3 2)) ''mc/libraries/a.jar''
   = Some ''bad3''
   \<and> ''sha-'' @ ''bad3'' \<noteq> ''sha-good''"
  by (simp add: download_file_async_with_retry_def retry_loop.simps attempt_once_def
      download_file_async_def transfer_def session_get_def http_get_def write_file_def
      compute_sha1_def sleep_def truthy_def)

text \<open>
  Claim C2, amended: for a task with an expected digest whose file is absent or has another
  digest, if each of the three attempts writes a content whose digest is not the expected
  one, the outcome is the digest mismatch of the third attempt, after sleeps of 2 and 4
  seconds, and the content of the third attempt is left at the target path.
\<close>

theorem mismatch_three_times_fails_and_leaves_file:
  assumes sha: "truthy sha"
    and pending: "files w path = None \<or> (\<exists>old. files w path = Some old \<and> Some (H old) \<noteq> sha)"
    and writable: "\<not> readonly w path"
    and first: "net w (length (log w)) u = Inr c0" "Some (H c0) \<noteq> sha"
    and second: "net w (length (log w) + 2) u = Inr c1" "Some (H c1) \<noteq> sha"
    and third: "net w (length (log w) + 4) u = Inr c2" "Some (H c2) \<noteq> sha"
  shows "download_file_async_with_retry H w (Some u) path sha 3 2 =
     (Inl (SHA1Mismatch path sha (H c2)),
      w\<lparr>log := Get u # Sleep 4 # Get u # Sleep 2 # Get u # log w,
        files := (files w)(path \<mapsto> c2)\<rparr>)"
proof -
  let ?w1 = "w\<lparr>log := Get u # log w, files := (files w)(path \<mapsto> c0)\<rparr>"
  let ?w1s = "w\<lparr>log := Sleep 2 # Get u # log w, files := (files w)(path \<mapsto> c0)\<rparr>"
  let ?w2 = "w\<lparr>log := Get u # Sleep 2 # Get u # log w, files := (files w)(path \<mapsto> c1)\<rparr>"
  let ?w2s = "w\<lparr>log := Sleep 4 # Get u # Sleep 2 # Get u # log w, files := (files w)(path \<mapsto> c1)\<rparr>"
  let ?w3 = "w\<lparr>log := Get u # Sleep 4 # Get u # Sleep 2 # Get u # log w,
               files := (files w)(path \<mapsto> c2)\<rparr>"
  have s1: "sleep ?w1 2 = ?w1s" and s2: "sleep ?w2 4 = ?w2s"
    by (simp_all add: sleep_def)
  have a1: "attempt_once H w (Some u) path sha = (Inl (SHA1Mismatch path sha (H c0)), ?w1)"
    using sha writable first pending by (rule attempt_once_mismatch)
  have a2: "attempt_once H ?w1s (Some u) path sha = (Inl (SHA1Mismatch path sha (H c1)), ?w2)"
    using attempt_once_mismatch [of sha ?w1s path u c1 H] sha writable first second
    by simp
  have t4: "Suc (Suc (Suc (Suc (length (log w))))) = length (log w) + 4" by simp
  have a3: "attempt_once H ?w2s (Some u) path sha = (Inl (SHA1Mismatch path sha (H c2)), ?w3)"
    using attempt_once_mismatch [of sha ?w2s path u c2 H] sha writable second third
    by (simp add: t4)
  have "retry_loop H 3 2 (Suc (Suc 0)) ?w2s (Some u) path sha = (Inl (SHA1Mismatch path sha (H c2)), ?w3)"
    by (subst retry_loop.simps) (simp add: a3)
  then have "retry_loop H 3 2 (Suc 0) ?w1s (Some u) path sha = (Inl (SHA1Mismatch path sha (H c2)), ?w3)"
    by (subst retry_loop.simps) (simp add: a2 s2)
  then have "retry_loop H 3 2 0 w (Some u) path sha = (Inl (SHA1Mismatch path sha (H c2)), ?w3)"
    by (subst retry_loop.simps) (simp add: a1 s1)
  then show ?thesis
    by (simp add: download_file_async_with_retry_def)
qed

theorem mismatch_three_times_witness:
  "download_file_async_with_retry (\<lambda>c. ''sha-'' @ c)
     \<lparr>files = Map.empty, readonly = (\<lambda>p. False),
      net = (\<lambda>t u. Inr (if t = 0 then ''bad1'' else if t = 2 then ''bad2'' else ''bad3'')),
      log = []\<rparr>
     (Some ''http://lib'') ''mc/libraries/a.jar'' (Some ''sha-good'') 3 2
   = (Inl (SHA1Mismatch ''mc/libraries/a.jar'' (Some ''sha-good'') ''sha-bad3''),
      \<lparr>files = [''mc/libraries/a.jar'' \<mapsto> ''bad3''], readonly = (\<lambda>p. False),
       net = (\<lambda>t u. Inr (if t = 0 then ''bad1'' else if t = 2 then ''bad2'' else ''bad3'')),
       log = [Get ''http://lib'', Sleep 4, Get ''http://lib'', Sleep 2, Get ''http://lib'']\<rparr>)"
  using mismatch_three_times_fails_and_leaves_file
    [of "Some ''sha-good''"
        "\<lparr>files = Map.empty, readonly = (\<lambda>p. False),
          net = (\<lambda>t u. Inr (if t = 0 then ''bad1'' else if t = 2 then ''bad2'' else ''bad3'')),
          log = []\<rparr>"
        "''mc/libraries/a.jar''" "\<lambda>c. ''sha-'' @ c" "''http://lib''" "''bad1''" "''bad2''" "''bad3''"]
  by (simp add: truthy_def)

subsection \<open>Tasks that repeat\<close>










subsection \<open>Running the pipeline twice\<close>




lemma sleep_already_have [simp]: "already_have H (sleep w n) p s = already_have H w p s"
  by (simp add: already_have_def sleep_def)






















end
